theory Spec2Isabelle
  imports Main "HOL-Library.Word"
begin

unbundle bit_operations_syntax

section \<open>JavaScript values used by the certificate model\<close>

text \<open>
  A property of a JavaScript object that holds a string, or is absent, \<open>undefined\<close> or
  \<open>null\<close>, is a \<open>string option\<close>. The operator \<open>a || b\<close> yields \<open>a\<close> when \<open>a\<close> is
  truthy and \<open>b\<close> otherwise; the empty string is falsy, like \<open>null\<close> and \<open>undefined\<close>.
\<close>

type_synonym jsstr = "string option"

definition truthy :: "jsstr \<Rightarrow> bool" where
  "truthy v = (case v of None \<Rightarrow> False | Some s \<Rightarrow> s \<noteq> [])"

definition js_or :: "jsstr \<Rightarrow> jsstr \<Rightarrow> jsstr" where
  "js_or a b = (if truthy a then a else b)"

text \<open>\<open>Array.prototype.join\<close> on an array of strings.\<close>

fun join :: "string \<Rightarrow> string list \<Rightarrow> string" where
  "join sep [] = []"
| "join sep [x] = x"
| "join sep (x # y # ys) = x @ sep @ join sep (y # ys)"

section \<open>X509Certificate.formatDistinguishedName\<close>

text \<open>The free-form record handed to \<open>formatDistinguishedName\<close>.\<close>

record subject_info =
  name :: jsstr
  commonName :: jsstr
  organization :: jsstr
  department :: jsstr
  city :: jsstr
  state :: jsstr
  country :: jsstr
  email :: jsstr

text \<open>
  The object literal \<open>dn\<close> as the list of its entries in insertion order, which is the
  order \<open>Object.entries\<close> walks. The returned object is \<open>dn\<close> spread, plus \<open>string\<close>.
\<close>

record distinguished_name =
  dn_entries :: "(string \<times> jsstr) list"
  dn_string :: string

definition abbreviations :: "(string \<times> string) list" where
  "abbreviations =
     [(''commonName'', ''CN''),
      (''organizationName'', ''O''),
      (''organizationalUnitName'', ''OU''),
      (''localityName'', ''L''),
      (''stateOrProvinceName'', ''ST''),
      (''countryName'', ''C''),
      (''emailAddress'', ''E'')]"

definition getDNAbbreviation :: "string \<Rightarrow> string" where
  "getDNAbbreviation key =
     (case js_or (map_of abbreviations key) (Some key) of Some a \<Rightarrow> a | None \<Rightarrow> key)"

text \<open>The template literal \<open>`${abbreviation}=${value}`\<close>; \<open>null\<close> prints as \<open>null\<close>.\<close>

definition dn_component :: "string \<times> jsstr \<Rightarrow> string" where
  "dn_component e =
     (case e of (key, value) \<Rightarrow>
        getDNAbbreviation key @ ''='' @ (case value of Some s \<Rightarrow> s | None \<Rightarrow> ''null''))"

definition formatDistinguishedName :: "subject_info \<Rightarrow> distinguished_name" where
  "formatDistinguishedName info =
     (let dn =
        [(''commonName'', js_or (js_or (name info) (commonName info)) (Some ''Unknown'')),
         (''organizationName'', js_or (organization info) None),
         (''organizationalUnitName'', js_or (department info) None),
         (''localityName'', js_or (city info) None),
         (''stateOrProvinceName'', js_or (state info) None),
         (''countryName'', js_or (country info) None),
         (''emailAddress'', js_or (email info) None)];
        dnString = join '', '' (map dn_component (filter (\<lambda>(_, value). value \<noteq> None) dn))
      in \<lparr>dn_entries = dn, dn_string = dnString\<rparr>)"

text \<open>
  The canonical string in the specification's words: the present fields, each rendered as
  \<open>ABBREV=value\<close>, in the order CN, O, OU, L, ST, C, E, separated by a comma and a blank.
  A field is present when the input value it is taken from is truthy.
\<close>

definition present :: "jsstr \<Rightarrow> jsstr" where
  "present v = (if truthy v then v else None)"

definition canonical_dn_string :: "subject_info \<Rightarrow> string" where
  "canonical_dn_string info =
     join '', ''
       (List.map_filter (\<lambda>(abbrev, v). map_option (\<lambda>s. abbrev @ ''='' @ s) v)
          [(''CN'', js_or (js_or (name info) (commonName info)) (Some ''Unknown'')),
           (''O'', present (organization info)),
           (''OU'', present (department info)),
           (''L'', present (city info)),
           (''ST'', present (state info)),
           (''C'', present (country info)),
           (''E'', present (email info))])"

definition nobody :: subject_info where
  "nobody =
     \<lparr>name = None, commonName = Some [], organization = None,
      department = None, city = None, state = None, country = None, email = None\<rparr>"

definition jane_doe :: subject_info where
  "jane_doe =
     \<lparr>name = None, commonName = Some ''Jane Doe'', organization = Some ''Acme'',
      department = None, city = None, state = None, country = Some ''US'', email = None\<rparr>"

section \<open>Byte buffers\<close>

text \<open>
  A \<open>Uint8Array\<close> is a list of bytes. Reading \<open>uint8Array[i]\<close> past the end yields
  \<open>undefined\<close>. Every use of such a read in the code below treats \<open>undefined\<close> as it
  treats the byte 0: a strict comparison with a non-zero constant is false, a bit operation
  coerces it to 0, \<open>String.fromCharCode\<close> maps it to the character 0, and storing it into
  a \<open>Uint8Array\<close> stores 0. So a read past the end is the byte 0 here.
\<close>

type_synonym byte = "8 word"

definition ascii :: "string \<Rightarrow> byte list" where
  "ascii s = map (\<lambda>c. of_nat (of_char c)) s"

definition byte_at :: "byte list \<Rightarrow> nat \<Rightarrow> byte" where
  "byte_at bs i = (if i < length bs then bs ! i else 0)"

text \<open>The same read at an offset that arithmetic on a signed length may have made negative.\<close>

definition byte_at_int :: "byte list \<Rightarrow> int \<Rightarrow> byte" where
  "byte_at_int bs i = (if 0 \<le> i then byte_at bs (nat i) else 0)"

text \<open>
  \<open>TypedArray.prototype.slice(start, end)\<close>: a negative index counts from the end, both
  indices are clamped to the buffer, and an end before the start gives the empty array.
\<close>

definition slice :: "byte list \<Rightarrow> int \<Rightarrow> int \<Rightarrow> byte list" where
  "slice bs start end =
     (let len = int (length bs);
          from = (if start < 0 then max (len + start) 0 else min start len);
          to = (if end < 0 then max (len + end) 0 else min end len)
      in take (nat (to - from)) (drop (nat from) bs))"

text \<open>
  The copy loop \<open>for (let j = i; j < e; j++) result.push(uint8Array[j])\<close>, for an end
  \<open>e\<close> that the callers bound by the length of the buffer.
\<close>

definition copy_range :: "byte list \<Rightarrow> nat \<Rightarrow> int \<Rightarrow> byte list" where
  "copy_range bs i e = take (nat (e - int i)) (drop i bs)"

text \<open>
  \<open>target.set(source, offset)\<close> on typed arrays. It raises a RangeError when the source
  does not fit; every call below writes into an array allocated to the exact size.
\<close>

definition set_bytes :: "byte list \<Rightarrow> byte list \<Rightarrow> nat \<Rightarrow> byte list" where
  "set_bytes target source offset =
     take offset target @ source @ drop (offset + length source) target"

text \<open>
  The bit operators work on 32-bit integers: \<open>(a << 8) | b\<close> is a signed 32-bit value,
  and \<open>(n >> k) & 0xFF\<close> stored into a byte array keeps the low eight bits.
\<close>

definition int16_be :: "byte \<Rightarrow> byte \<Rightarrow> int" where
  "int16_be b0 b1 = sint (push_bit 8 (ucast b0) OR ucast b1 :: 32 word)"

definition int32_be :: "byte \<Rightarrow> byte \<Rightarrow> byte \<Rightarrow> byte \<Rightarrow> int" where
  "int32_be b0 b1 b2 b3 =
     sint (push_bit 24 (ucast b0) OR push_bit 16 (ucast b1) OR push_bit 8 (ucast b2) OR ucast b3
           :: 32 word)"

definition shifted_byte :: "32 word \<Rightarrow> nat \<Rightarrow> byte" where
  "shifted_byte n k = ucast (signed_drop_bit k n AND 0xFF)"

datatype js_error = Error string

section \<open>PNGEmbedder.calculateCRC32\<close>

text \<open>The body of the inner loop of \<open>getCRCTable\<close>, and the loop over \<open>k\<close>.\<close>

definition crc_step :: "32 word \<Rightarrow> 32 word" where
  "crc_step c = (if c AND 1 \<noteq> 0 then 0xEDB88320 XOR drop_bit 1 c else drop_bit 1 c)"

fun crc_bits :: "nat \<Rightarrow> 32 word \<Rightarrow> 32 word" where
  "crc_bits 0 c = c"
| "crc_bits (Suc k) c = crc_bits k (crc_step c)"

definition getCRCTable :: "32 word list" where
  "getCRCTable = map (\<lambda>n. crc_bits 8 (of_nat n)) [0..<256]"

definition crc_update :: "32 word list \<Rightarrow> 32 word \<Rightarrow> byte \<Rightarrow> 32 word" where
  "crc_update crcTable crc b =
     (crcTable ! unat ((crc XOR ucast b) AND 0xFF)) XOR drop_bit 8 crc"

definition calculateCRC32 :: "byte list \<Rightarrow> 32 word" where
  "calculateCRC32 data =
     (let crcTable = getCRCTable;
          crc = foldl (crc_update crcTable) 0xFFFFFFFF data
      in crc XOR 0xFFFFFFFF)"

text \<open>
  The standard CRC32 of PNG in the specification's words: the register starts at
  \<open>0xFFFFFFFF\<close>, each byte is XORed into it and followed by eight shift steps with the
  polynomial \<open>0xEDB88320\<close>, and the result is XORed with \<open>0xFFFFFFFF\<close>.
\<close>

definition crc32_bit :: "32 word \<Rightarrow> 32 word" where
  "crc32_bit c = (if bit c 0 then drop_bit 1 c XOR 0xEDB88320 else drop_bit 1 c)"

definition crc32_byte :: "32 word \<Rightarrow> byte \<Rightarrow> 32 word" where
  "crc32_byte c b = (crc32_bit ^^ 8) (c XOR ucast b)"

definition crc32_standard :: "byte list \<Rightarrow> 32 word" where
  "crc32_standard data = foldl crc32_byte 0xFFFFFFFF data XOR 0xFFFFFFFF"

section \<open>JPEGEmbedder\<close>

text \<open>
  \<open>JSON.stringify\<close> followed by \<open>TextEncoder.encode\<close>, and \<open>TextDecoder.decode\<close>
  followed by \<open>JSON.parse\<close> inside \<open>try\<close>/\<open>catch\<close>, are functions of the platform. The
  embedders take the first as \<open>serialize\<close>, from a payload to its bytes; the extractors take
  the second as \<open>parse\<close>, from bytes to a payload, or to \<open>None\<close> where the source returns
  \<open>null\<close> from the \<open>catch\<close>. The extractors also decode a few bytes to compare them with
  an ASCII constant (\<open>IMGTRUST\<close>, \<open>tRST\<close>, the names of the critical chunks): the decoded
  text equals the constant exactly when the bytes are its ASCII codes, so the model
  compares the bytes.
\<close>

definition MARKER_APP15 :: byte where
  "MARKER_APP15 = 0xEF"

definition SIGNATURE :: string where
  "SIGNATURE = ''IMGTRUST''"

definition isValidJPEG :: "byte list \<Rightarrow> bool" where
  "isValidJPEG uint8Array =
     (length uint8Array \<ge> 2 \<and> byte_at uint8Array 0 = 0xFF \<and> byte_at uint8Array 1 = 0xD8)"

definition createAPP15Segment :: "byte list \<Rightarrow> nat \<Rightarrow> byte list" where
  "createAPP15Segment certBytes segmentLength =
     (let appSegment = replicate (segmentLength + 2) 0;
          appSegment = appSegment[0 := 0xFF];
          appSegment = appSegment[1 := MARKER_APP15];
          appSegment = appSegment[2 := shifted_byte (of_nat segmentLength) 8];
          appSegment = appSegment[3 := shifted_byte (of_nat segmentLength) 0];
          signature = ascii SIGNATURE;
          appSegment = set_bytes appSegment signature 4;
          appSegment = set_bytes appSegment certBytes (4 + length signature)
      in appSegment)"

definition insertSegment :: "byte list \<Rightarrow> byte list \<Rightarrow> byte list" where
  "insertSegment originalArray segment =
     (let result = replicate (length originalArray + length segment) 0;
          result = set_bytes result (slice originalArray 0 2) 0;
          result = set_bytes result segment 2;
          result = set_bytes result (slice originalArray 2 (int (length originalArray)))
                     (2 + length segment)
      in result)"

definition jpeg_embedCertification ::
  "('p \<Rightarrow> byte list) \<Rightarrow> byte list \<Rightarrow> 'p \<Rightarrow> js_error + byte list" where
  "jpeg_embedCertification serialize imageBuffer certificationData =
     (if \<not> isValidJPEG imageBuffer then Inl (Error ''Invalid JPEG file'')
      else
        let certBytes = serialize certificationData;
            segmentLength = length certBytes + length SIGNATURE + 2
        in if segmentLength > 65535
           then Inl (Error ''Certification data too large for JPEG segment'')
           else Inr (insertSegment imageBuffer (createAPP15Segment certBytes segmentLength)))"

function jpeg_extract_loop :: "(byte list \<Rightarrow> 'p option) \<Rightarrow> byte list \<Rightarrow> nat \<Rightarrow> 'p option" where
  "jpeg_extract_loop parse uint8Array offset =
     (if int offset < int (length uint8Array) - 4 then
        if byte_at uint8Array offset = 0xFF \<and> byte_at uint8Array (offset + 1) = MARKER_APP15
        then
          let segmentLength = int16_be (byte_at uint8Array (offset + 2))
                                       (byte_at uint8Array (offset + 3));
              signatureOffset = int offset + 4;
              signature = slice uint8Array signatureOffset
                            (signatureOffset + int (length SIGNATURE))
          in if signature = ascii SIGNATURE then
               let dataOffset = signatureOffset + int (length SIGNATURE);
                   dataLength = segmentLength - int (length SIGNATURE) - 2
               in parse (slice uint8Array dataOffset (dataOffset + dataLength))
             else jpeg_extract_loop parse uint8Array (offset + 1)
        else jpeg_extract_loop parse uint8Array (offset + 1)
      else None)"
  by pat_completeness auto
termination
  by (relation "measure (\<lambda>(parse, uint8Array, offset). length uint8Array - offset)") auto

declare jpeg_extract_loop.simps [simp del]

definition jpeg_extractCertification :: "(byte list \<Rightarrow> 'p option) \<Rightarrow> byte list \<Rightarrow> 'p option" where
  "jpeg_extractCertification parse imageBuffer =
     (if \<not> isValidJPEG imageBuffer then None else jpeg_extract_loop parse imageBuffer 2)"

section \<open>PNGEmbedder\<close>

definition CHUNK_TYPE :: string where
  "CHUNK_TYPE = ''tRST''"

definition PNG_SIGNATURE :: "byte list" where
  "PNG_SIGNATURE = [0x89, 0x50, 0x4E, 0x47, 0x0D, 0x0A, 0x1A, 0x0A]"

definition isValidPNG :: "byte list \<Rightarrow> bool" where
  "isValidPNG uint8Array =
     (if length uint8Array < 8 then False
      else list_all (\<lambda>i. byte_at uint8Array i = PNG_SIGNATURE ! i) [0..<8])"

text \<open>The scan for the bytes \<open>IEND\<close>; the result is the offset four bytes before them, or -1.\<close>

function findIEND_loop :: "byte list \<Rightarrow> nat \<Rightarrow> int" where
  "findIEND_loop uint8Array i =
     (if int i < int (length uint8Array) - 8 then
        if byte_at uint8Array (i + 4) = 0x49 \<and> byte_at uint8Array (i + 5) = 0x45 \<and>
           byte_at uint8Array (i + 6) = 0x4E \<and> byte_at uint8Array (i + 7) = 0x44
        then int i
        else findIEND_loop uint8Array (i + 1)
      else -1)"
  by pat_completeness auto
termination
  by (relation "measure (\<lambda>(uint8Array, i). length uint8Array - i)") auto

declare findIEND_loop.simps [simp del]

definition findIENDChunk :: "byte list \<Rightarrow> int" where
  "findIENDChunk uint8Array = findIEND_loop uint8Array 8"

definition createTrustChunk :: "byte list \<Rightarrow> byte list" where
  "createTrustChunk certBytes =
     (let chunkLength = length certBytes;
          chunk = replicate (chunkLength + 12) 0;
          chunk = chunk[0 := shifted_byte (of_nat chunkLength) 24];
          chunk = chunk[1 := shifted_byte (of_nat chunkLength) 16];
          chunk = chunk[2 := shifted_byte (of_nat chunkLength) 8];
          chunk = chunk[3 := shifted_byte (of_nat chunkLength) 0];
          chunk = chunk[4 := 0x74];
          chunk = chunk[5 := 0x52];
          chunk = chunk[6 := 0x53];
          chunk = chunk[7 := 0x54];
          chunk = set_bytes chunk certBytes 8;
          crc = calculateCRC32 (slice chunk 4 (8 + int chunkLength));
          chunk = chunk[8 + chunkLength := shifted_byte crc 24];
          chunk = chunk[9 + chunkLength := shifted_byte crc 16];
          chunk = chunk[10 + chunkLength := shifted_byte crc 8];
          chunk = chunk[11 + chunkLength := shifted_byte crc 0]
      in chunk)"

text \<open>The chunk that \<open>createTrustChunk\<close> builds, written as its three parts.\<close>

definition trust_chunk_head :: "byte list \<Rightarrow> byte list" where
  "trust_chunk_head certBytes =
     [shifted_byte (of_nat (length certBytes)) 24, shifted_byte (of_nat (length certBytes)) 16,
      shifted_byte (of_nat (length certBytes)) 8, shifted_byte (of_nat (length certBytes)) 0,
      0x74, 0x52, 0x53, 0x54]"

definition trust_chunk_crc :: "byte list \<Rightarrow> byte list" where
  "trust_chunk_crc certBytes =
     (let crc = calculateCRC32 ([0x74, 0x52, 0x53, 0x54] @ certBytes)
      in [shifted_byte crc 24, shifted_byte crc 16, shifted_byte crc 8, shifted_byte crc 0])"

definition trust_chunk_bytes :: "byte list \<Rightarrow> byte list" where
  "trust_chunk_bytes certBytes =
     trust_chunk_head certBytes @ certBytes @ trust_chunk_crc certBytes"

definition insertChunk :: "byte list \<Rightarrow> byte list \<Rightarrow> int \<Rightarrow> byte list" where
  "insertChunk originalArray chunk position =
     (let result = replicate (length originalArray + length chunk) 0;
          result = set_bytes result (slice originalArray 0 position) 0;
          result = set_bytes result chunk (nat position);
          result = set_bytes result (slice originalArray position (int (length originalArray)))
                     (nat position + length chunk)
      in result)"

definition png_embedCertification ::
  "('p \<Rightarrow> byte list) \<Rightarrow> byte list \<Rightarrow> 'p \<Rightarrow> js_error + byte list" where
  "png_embedCertification serialize imageBuffer certificationData =
     (if \<not> isValidPNG imageBuffer then Inl (Error ''Invalid PNG file'')
      else
        let iendPosition = findIENDChunk imageBuffer
        in if iendPosition = -1 then Inl (Error ''IEND chunk not found in PNG'')
           else
             let certBytes = serialize certificationData
             in if length certBytes > 2147483647
                then Inl (Error ''Certification data too large for PNG chunk'')
                else Inr (insertChunk imageBuffer (createTrustChunk certBytes) iendPosition))"

text \<open>The two reads at the head of the loop body of \<open>extractCertification\<close>.\<close>

definition chunk_length_int :: "byte list \<Rightarrow> int \<Rightarrow> int" where
  "chunk_length_int uint8Array offset =
     int32_be (byte_at_int uint8Array offset) (byte_at_int uint8Array (offset + 1))
              (byte_at_int uint8Array (offset + 2)) (byte_at_int uint8Array (offset + 3))"

definition chunk_type_int :: "byte list \<Rightarrow> int \<Rightarrow> byte list" where
  "chunk_type_int uint8Array offset =
     [byte_at_int uint8Array (offset + 4), byte_at_int uint8Array (offset + 5),
      byte_at_int uint8Array (offset + 6), byte_at_int uint8Array (offset + 7)]"

text \<open>
  The chunk walk of \<open>extractCertification\<close>. The length read from the file is a signed
  32-bit value, so the offset can move backwards and the loop need not end: the result is
  \<open>None\<close> when it does not, \<open>Some None\<close> when the source returns \<open>null\<close>, and
  \<open>Some (Some p)\<close> when it returns the parsed payload \<open>p\<close>.
\<close>

partial_function (option) png_extract_loop ::
  "(byte list \<Rightarrow> 'p option) \<Rightarrow> byte list \<Rightarrow> int \<Rightarrow> 'p option option" where
  "png_extract_loop parse uint8Array offset =
     (if offset < int (length uint8Array) - 12 then
        let chunkLength = chunk_length_int uint8Array offset;
            chunkType = chunk_type_int uint8Array offset
        in if chunkType = ascii CHUNK_TYPE then
             let dataOffset = offset + 8
             in Some (parse (slice uint8Array dataOffset (dataOffset + chunkLength)))
           else png_extract_loop parse uint8Array (offset + chunkLength + 12)
      else Some None)"

definition png_extractCertification ::
  "(byte list \<Rightarrow> 'p option) \<Rightarrow> byte list \<Rightarrow> 'p option option" where
  "png_extractCertification parse imageBuffer =
     (if \<not> isValidPNG imageBuffer then Some None else png_extract_loop parse imageBuffer 8)"

text \<open>
  A buffer whose chunks lead to an offset: starting at \<open>offset\<close>, each chunk has a type
  other than \<open>tRST\<close> and a length that is not negative, and the chunk after it starts
  where it ends, until a chunk starts at \<open>position\<close> exactly.
\<close>

function chunks_lead_to :: "byte list \<Rightarrow> int \<Rightarrow> int \<Rightarrow> bool" where
  "chunks_lead_to uint8Array position offset =
     (if offset = position then True
      else if offset < position \<and> 0 \<le> chunk_length_int uint8Array offset \<and>
              chunk_type_int uint8Array offset \<noteq> ascii CHUNK_TYPE
      then chunks_lead_to uint8Array position (offset + chunk_length_int uint8Array offset + 12)
      else False)"
  by pat_completeness auto
termination
  by (relation "measure (\<lambda>(uint8Array, position, offset). nat (position - offset))") auto

declare chunks_lead_to.simps [simp del]

section \<open>WebCryptoUtils: metadata stripping\<close>

definition keep_marker :: "byte \<Rightarrow> bool" where
  "keep_marker marker =
     (marker = 0xD8 \<or> marker = 0xD9 \<or>
      (marker \<ge> 0xC0 \<and> marker \<le> 0xCF \<and> marker \<noteq> 0xC4 \<and> marker \<noteq> 0xCC) \<or>
      marker = 0xC4 \<or> marker = 0xDB \<or> marker = 0xDA)"

function strip_jpeg_loop :: "byte list \<Rightarrow> nat \<Rightarrow> byte list \<Rightarrow> byte list" where
  "strip_jpeg_loop uint8Array i result =
     (let len = int (length uint8Array) in
      if int i < len - 1 then
        if byte_at uint8Array i = 0xFF then
          let marker = byte_at uint8Array (i + 1) in
          if keep_marker marker then
            if marker = 0xDA then result @ copy_range uint8Array i len
            else
              let result1 = result @ [byte_at uint8Array i, byte_at uint8Array (i + 1)];
                  i1 = i + 2
              in if marker \<noteq> 0xD8 \<and> marker \<noteq> 0xD9 then
                   if int i1 + 2 \<le> len then
                     let length = int16_be (byte_at uint8Array i1) (byte_at uint8Array (i1 + 1));
                         result2 = result1 @ copy_range uint8Array i1 (min (int i1 + length) len)
                     in strip_jpeg_loop uint8Array (i1 + nat length) result2
                   else result1
                 else strip_jpeg_loop uint8Array i1 result1
          else
            let i1 = i + 2 in
            if int i1 + 2 \<le> len
            then strip_jpeg_loop uint8Array
                   (i1 + nat (int16_be (byte_at uint8Array i1) (byte_at uint8Array (i1 + 1)))) result
            else result
        else strip_jpeg_loop uint8Array (i + 1) result
      else result)"
  by pat_completeness auto
termination
  by (relation "measure (\<lambda>(uint8Array, i, result). length uint8Array - i)") auto

declare strip_jpeg_loop.simps [simp del]

definition stripJPEGMetadata :: "byte list \<Rightarrow> byte list" where
  "stripJPEGMetadata uint8Array =
     strip_jpeg_loop uint8Array 2 [byte_at uint8Array 0, byte_at uint8Array 1]"

definition critical_chunk :: "byte list \<Rightarrow> bool" where
  "critical_chunk chunkType =
     (chunkType = ascii ''IHDR'' \<or> chunkType = ascii ''PLTE'' \<or>
      chunkType = ascii ''IDAT'' \<or> chunkType = ascii ''IEND'')"

text \<open>The two reads at the head of the loop body of \<open>stripPNGMetadata\<close>.\<close>

definition chunk_length_at :: "byte list \<Rightarrow> nat \<Rightarrow> int" where
  "chunk_length_at uint8Array i =
     int32_be (byte_at uint8Array i) (byte_at uint8Array (i + 1))
              (byte_at uint8Array (i + 2)) (byte_at uint8Array (i + 3))"

definition chunk_type_at :: "byte list \<Rightarrow> nat \<Rightarrow> byte list" where
  "chunk_type_at uint8Array i =
     [byte_at uint8Array (i + 4), byte_at uint8Array (i + 5),
      byte_at uint8Array (i + 6), byte_at uint8Array (i + 7)]"

text \<open>
  The walk of \<open>stripPNGMetadata\<close>. The offset is advanced before the safety check; the
  walk goes on only with a length that is not negative, so the offset stays a natural number.
\<close>

function strip_png_loop :: "byte list \<Rightarrow> nat \<Rightarrow> byte list \<Rightarrow> byte list" where
  "strip_png_loop uint8Array i result =
     (let len = int (length uint8Array) in
      if int i < len - 12 then
        if int i + 8 > len then result
        else
          let chunkLength = chunk_length_at uint8Array i;
              chunkType = chunk_type_at uint8Array i;
              result1 = (if critical_chunk chunkType
                         then result @ copy_range uint8Array i (min (int i + chunkLength + 12) len)
                         else result)
          in if chunkLength < 0 \<or> chunkLength > len then result1
             else strip_png_loop uint8Array (nat (int i + chunkLength + 12)) result1
      else result)"
  by pat_completeness auto
termination
  by (relation "measure (\<lambda>(uint8Array, i, result). length uint8Array - i)") auto

declare strip_png_loop.simps [simp del]

definition stripPNGMetadata :: "byte list \<Rightarrow> byte list" where
  "stripPNGMetadata uint8Array = strip_png_loop uint8Array 8 (map (byte_at uint8Array) [0..<8])"

definition stripMetadata :: "byte list \<Rightarrow> byte list" where
  "stripMetadata imageBuffer =
     (if byte_at imageBuffer 0 = 0xFF \<and> byte_at imageBuffer 1 = 0xD8
      then stripJPEGMetadata imageBuffer
      else if list_all (\<lambda>i. byte_at imageBuffer i = PNG_SIGNATURE ! i) [0..<8]
      then stripPNGMetadata imageBuffer
      else imageBuffer)"

text \<open>
  A well-formed PNG of one grey pixel: the signature, \<open>IHDR\<close>, an \<open>IDAT\<close> chunk with the
  compressed pixel, an empty \<open>IDAT\<close> chunk and \<open>IEND\<close>, each with its CRC.
\<close>

definition one_pixel_png :: "byte list" where
  "one_pixel_png =
     PNG_SIGNATURE @
     [0x00, 0x00, 0x00, 0x0D, 0x49, 0x48, 0x44, 0x52, 0x00, 0x00, 0x00, 0x01, 0x00, 0x00, 0x00,
      0x01, 0x08, 0x00, 0x00, 0x00, 0x00, 0x3A, 0x7E, 0x9B, 0x55] @
     [0x00, 0x00, 0x00, 0x0A, 0x49, 0x44, 0x41, 0x54, 0x78, 0x9C, 0x63, 0x60, 0x00, 0x00, 0x00,
      0x02, 0x00, 0x01, 0x48, 0xAF, 0xA4, 0x71] @
     [0x00, 0x00, 0x00, 0x00, 0x49, 0x44, 0x41, 0x54, 0x35, 0xAF, 0x06, 0x1E] @
     [0x00, 0x00, 0x00, 0x00, 0x49, 0x45, 0x4E, 0x44, 0xAE, 0x42, 0x60, 0x82]"

text \<open>
  A PNG whose \<open>IDAT\<close> chunk declares 48 bytes of data where 26 bytes remain in the
  buffer, and one whose \<open>IDAT\<close> chunk declares the negative length \<open>0xFFFFFFF0\<close>.
\<close>

definition forged_png :: "byte list" where
  "forged_png =
     PNG_SIGNATURE @
     [0x00, 0x00, 0x00, 0x0D, 0x49, 0x48, 0x44, 0x52, 0x00, 0x00, 0x00, 0x01, 0x00, 0x00, 0x00,
      0x01, 0x08, 0x00, 0x00, 0x00, 0x00, 0x3A, 0x7E, 0x9B, 0x55] @
     [0x00, 0x00, 0x00, 0x30, 0x49, 0x44, 0x41, 0x54, 0x78, 0x9C, 0x63, 0x60, 0x00, 0x00, 0x00,
      0x02, 0x00, 0x01, 0x48, 0xAF, 0xA4, 0x71] @
     [0x00, 0x00, 0x00, 0x00, 0x49, 0x45, 0x4E, 0x44, 0xAE, 0x42, 0x60, 0x82]"

definition negative_png :: "byte list" where
  "negative_png =
     PNG_SIGNATURE @
     [0xFF, 0xFF, 0xFF, 0xF0, 0x49, 0x44, 0x41, 0x54, 0x78, 0x9C, 0x63, 0x60, 0x00, 0x00, 0x00,
      0x02, 0x00, 0x01, 0x48, 0xAF, 0xA4, 0x71] @
     [0x00, 0x00, 0x00, 0x00, 0x49, 0x45, 0x4E, 0x44, 0xAE, 0x42, 0x60, 0x82]"

text \<open>The smallest JPEG: the start-of-image and end-of-image markers.\<close>

definition tiny_jpeg :: "byte list" where
  "tiny_jpeg = [0xFF, 0xD8, 0xFF, 0xD9]"

text \<open>A JPEG whose quantization-table segment declares the length 1.\<close>

definition short_segment_jpeg :: "byte list" where
  "short_segment_jpeg = [0xFF, 0xD8, 0xFF, 0xDB, 0x00, 0x01]"

text \<open>
  A PNG that already carries a \<open>tRST\<close> chunk with the payload \<open>{}\<close> before \<open>IEND\<close>.
\<close>

definition certified_png :: "byte list" where
  "certified_png =
     PNG_SIGNATURE @
     [0x00, 0x00, 0x00, 0x02, 0x74, 0x52, 0x53, 0x54, 0x7B, 0x7D, 0x33, 0xD0, 0xF9, 0x43] @
     [0x00, 0x00, 0x00, 0x00, 0x49, 0x45, 0x4E, 0x44, 0xAE, 0x42, 0x60, 0x82]"

section \<open>PEMParser.validateAgainstTrustStore\<close>

text \<open>
  A \<open>Date\<close> built from a timestamp string: a number of milliseconds, or the invalid date,
  whose value is NaN and for which every comparison is false. A property that may be
  \<open>undefined\<close>, \<open>null\<close> or a string, and is compared with \<open>===\<close>, is a \<open>jsval\<close>.
\<close>

datatype jsdate = Invalid_Date | Date int

datatype jsval = Undefined | Null | Str string

definition date_gt :: "int \<Rightarrow> jsdate \<Rightarrow> bool" where
  "date_gt now d = (case d of Invalid_Date \<Rightarrow> False | Date t \<Rightarrow> now > t)"

definition date_lt :: "int \<Rightarrow> jsdate \<Rightarrow> bool" where
  "date_lt now d = (case d of Invalid_Date \<Rightarrow> False | Date t \<Rightarrow> now < t)"

definition date_ge :: "int \<Rightarrow> jsdate \<Rightarrow> bool" where
  "date_ge now d = (case d of Invalid_Date \<Rightarrow> False | Date t \<Rightarrow> now \<ge> t)"

definition date_le :: "int \<Rightarrow> jsdate \<Rightarrow> bool" where
  "date_le now d = (case d of Invalid_Date \<Rightarrow> False | Date t \<Rightarrow> now \<le> t)"

text \<open>
  The fields a certificate is read for. They sit in \<open>tbsCertificate\<close>, or on the
  certificate itself in the legacy format. A subject or issuer is a string, or a
  distinguished name whose \<open>string\<close> is taken; \<open>notBefore\<close> and \<open>notAfter\<close> are \<open>None\<close>
  when the timestamp is absent or falsy, and the date built from it otherwise.
\<close>

record tbs_fields =
  subject :: jsstr
  issuer :: jsstr
  serialNumber :: jsstr
  notBefore :: "jsdate option"
  notAfter :: "jsdate option"

record certificate =
  tbsCertificate :: "tbs_fields option"
  legacy_fields :: tbs_fields
  fingerprint_sha256 :: jsval

record certificate_info =
  info_subject :: jsstr
  info_issuer :: jsstr
  info_serialNumber :: jsstr
  validFrom :: "jsdate option"
  validTo :: "jsdate option"
  info_fingerprint_sha256 :: jsval

definition getCertificateInfo :: "certificate \<Rightarrow> certificate_info" where
  "getCertificateInfo cert =
     (let tbs = (case tbsCertificate cert of Some t \<Rightarrow> t | None \<Rightarrow> legacy_fields cert)
      in \<lparr>info_subject = js_or (subject tbs) (Some ''Unknown''),
          info_issuer = js_or (issuer tbs) (Some ''Unknown''),
          info_serialNumber = js_or (serialNumber tbs) (Some ''Unknown''),
          validFrom = notBefore tbs,
          validTo = notAfter tbs,
          info_fingerprint_sha256 = fingerprint_sha256 cert\<rparr>)"

text \<open>The object literals that \<open>validateAgainstTrustStore\<close> returns; an absent property is \<open>None\<close>.\<close>

record validation_result =
  valid :: bool
  reason :: jsstr
  expired :: "bool option"
  notYetValid :: "bool option"
  untrusted :: "bool option"
  trustedBy :: jsstr
  trustChain :: "jsstr list option"

definition no_result :: validation_result where
  "no_result =
     \<lparr>valid = False, reason = None, expired = None, notYetValid = None, untrusted = None,
      trustedBy = None, trustChain = None\<rparr>"

fun trust_store_loop :: "certificate_info \<Rightarrow> certificate list \<Rightarrow> validation_result" where
  "trust_store_loop certInfo [] =
     no_result\<lparr>valid := False, reason := Some ''Certificate not found in trust store'',
               untrusted := Some True\<rparr>"
| "trust_store_loop certInfo (trustedCert # rest) =
     (let trustedInfo = getCertificateInfo trustedCert in
      if info_subject trustedInfo = info_issuer certInfo then
        no_result\<lparr>valid := True, trustedBy := info_subject trustedInfo,
                  trustChain := Some [info_subject certInfo, info_subject trustedInfo]\<rparr>
      else if info_serialNumber trustedInfo = info_serialNumber certInfo \<and>
              info_fingerprint_sha256 trustedInfo = info_fingerprint_sha256 certInfo then
        no_result\<lparr>valid := True, trustedBy := Some ''Direct trust'',
                  trustChain := Some [info_subject certInfo]\<rparr>
      else trust_store_loop certInfo rest)"

text \<open>
  The clock is read twice, once for each check: \<open>now1\<close> and \<open>now2\<close> are the two values
  of \<open>new Date()\<close>, in milliseconds.
\<close>

definition validateAgainstTrustStore ::
  "int \<Rightarrow> int \<Rightarrow> certificate \<Rightarrow> certificate list \<Rightarrow> validation_result" where
  "validateAgainstTrustStore now1 now2 cert trustStore =
     (let certInfo = getCertificateInfo cert in
      if (case validTo certInfo of None \<Rightarrow> False | Some d \<Rightarrow> date_gt now1 d) then
        no_result\<lparr>valid := False, reason := Some ''Certificate has expired'',
                  expired := Some True\<rparr>
      else if (case validFrom certInfo of None \<Rightarrow> False | Some d \<Rightarrow> date_lt now2 d) then
        no_result\<lparr>valid := False, reason := Some ''Certificate is not yet valid'',
                  notYetValid := Some True\<rparr>
      else trust_store_loop certInfo trustStore)"

text \<open>A certificate in \<open>tbsCertificate\<close> form with the given validity window.\<close>

definition window_cert :: "int \<Rightarrow> int \<Rightarrow> certificate" where
  "window_cert nb na =
     \<lparr>tbsCertificate =
        Some \<lparr>subject = Some ''CN=Jane Doe'', issuer = Some ''CN=Jane Doe'',
              serialNumber = Some ''01'', notBefore = Some (Date nb), notAfter = Some (Date na)\<rparr>,
      legacy_fields =
        \<lparr>subject = None, issuer = None, serialNumber = None, notBefore = None, notAfter = None\<rparr>,
      fingerprint_sha256 = Str ''AB:CD''\<rparr>"

section \<open>TrustVerifier.verifyCertification\<close>

text \<open>
  The certification data extracted from an image: \<open>signature\<close> is \<open>Some\<close> of its bytes
  when it is an array. A trusted certificate is a \<open>certificate\<close> as above.
\<close>

record certification_data =
  certFingerprint :: jsval
  signature :: "byte list option"
  description :: jsstr
  timestamp :: jsval

text \<open>
  The object handed to \<open>setVerificationResult\<close>; an absent property is \<open>None\<close>. Of
  \<open>details\<close> only \<open>error\<close> is kept, and \<open>exifData\<close> is left out: they are shown to the
  user and take no part in the verdict. The status messages are kept without the symbol
  that leads them in the source.
\<close>

record verification_result =
  result_valid :: "bool option"
  trusted :: "bool option"
  validPeriod :: "bool option"
  certificateValid :: "bool option"
  signatureValid :: "bool option"
  imageHashValid :: "bool option"
  overallStatus :: jsstr
  details_error :: jsstr
  trustIssues :: "string list option"
  result_error :: jsstr

definition empty_result :: verification_result where
  "empty_result =
     \<lparr>result_valid = None, trusted = None, validPeriod = None, certificateValid = None,
      signatureValid = None, imageHashValid = None, overallStatus = None, details_error = None,
      trustIssues = None, result_error = None\<rparr>"

text \<open>The state of the component that \<open>verifyCertification\<close> reads and writes.\<close>

record verifier_state =
  uploadedImage :: "byte list option"
  certificationData :: "certification_data option"
  trustedCertificates :: "certificate list"
  verificationResult :: "verification_result option"
  status :: string
  isVerifying :: bool

text \<open>\<open>trustedCertificates.find\<close> with the fingerprint test of the source.\<close>

definition fingerprint_matches :: "jsval \<Rightarrow> certificate \<Rightarrow> bool" where
  "fingerprint_matches fp tc =
     (case fingerprint_sha256 tc of
        Str s \<Rightarrow> if s \<noteq> [] then Str s = fp else False
      | _ \<Rightarrow> False)"

definition push_if :: "bool \<Rightarrow> string \<Rightarrow> string list \<Rightarrow> string list" where
  "push_if c issue issues = (if c then issues @ [issue] else issues)"

text \<open>
  \<open>reExtracted\<close> is the outcome of \<open>CertificationExtractor.extractFromImage\<close> on the
  uploaded image: \<open>Inl\<close> when it throws, \<open>Inr None\<close> for \<open>null\<close>. \<open>now\<close> is the value of
  \<open>new Date()\<close>.
\<close>

definition verifyCertification ::
  "int \<Rightarrow> (js_error + certification_data option) \<Rightarrow> verifier_state \<Rightarrow> verifier_state" where
  "verifyCertification now reExtracted st =
     (case (certificationData st, uploadedImage st) of
        (Some cd, Some img) \<Rightarrow>
          (case find (fingerprint_matches (certFingerprint cd)) (trustedCertificates st) of
             None \<Rightarrow>
               st\<lparr>verificationResult :=
                    Some (empty_result\<lparr>result_valid := Some False, trusted := Some False,
                            validPeriod := Some False, signatureValid := Some False,
                            imageHashValid := Some False,
                            details_error := Some ''Certificate not found in trust store''\<rparr>),
                  status := ''Verification failed - certificate not trusted'',
                  isVerifying := False\<rparr>
           | Some trustedCert \<Rightarrow>
               (let isTrusted = True;
                    validity = tbsCertificate trustedCert;
                    isValidPeriod = True;
                    isValidPeriod =
                      (case Option.bind validity notBefore of
                         Some d \<Rightarrow> isValidPeriod \<and> date_ge now d | None \<Rightarrow> isValidPeriod);
                    isValidPeriod =
                      (case Option.bind validity notAfter of
                         Some d \<Rightarrow> isValidPeriod \<and> date_le now d | None \<Rightarrow> isValidPeriod);
                    sigValid = (case signature cd of Some xs \<Rightarrow> length xs > 0 | None \<Rightarrow> False);
                    hashValid =
                      (case reExtracted of
                         Inr (Some re) \<Rightarrow>
                           certFingerprint re = certFingerprint cd \<and> timestamp re = timestamp cd
                       | _ \<Rightarrow> False);
                    verified = (isTrusted \<and> isValidPeriod \<and> sigValid \<and> hashValid);
                    issues = push_if (\<not> isTrusted) ''Certificate not in trust store'' [];
                    issues = push_if (\<not> isValidPeriod) ''Certificate expired or not yet valid'' issues;
                    issues = push_if (\<not> sigValid) ''Cryptographic signature verification failed'' issues;
                    issues = push_if (\<not> hashValid) ''Image data has been modified since signing'' issues;
                    result = empty_result\<lparr>trusted := Some isTrusted,
                               certificateValid := Some isValidPeriod,
                               signatureValid := Some sigValid, imageHashValid := Some hashValid,
                               overallStatus := Some (if verified then ''verified'' else ''failed''),
                               trustIssues := Some issues\<rparr>
                in st\<lparr>verificationResult := Some result,
                      status := (if verified
                                 then ''Verification successful - Trust chain intact''
                                 else ''Verification failed: '' @ join '', '' issues),
                      isVerifying := False\<rparr>))
      | _ \<Rightarrow> st)"

text \<open>
  A state in which certification data was extracted from the uploaded image, with a
  signature in place, and the trust store holds one certificate with another fingerprint.
\<close>

definition untrusted_data :: certification_data where
  "untrusted_data =
     \<lparr>certFingerprint = Str ''EF:01'', signature = Some [0x30, 0x66],
      description = Some ''test'', timestamp = Str ''2024-01-01T00:00:00Z''\<rparr>"

definition untrusted_state :: verifier_state where
  "untrusted_state =
     \<lparr>uploadedImage = Some tiny_jpeg, certificationData = Some untrusted_data,
      trustedCertificates = [window_cert 1000 2000], verificationResult = None,
      status = ''Certification found - ready to verify'', isVerifying = False\<rparr>"

section \<open>Distinguished names: results\<close>

lemma getDNAbbreviation_table:
  "getDNAbbreviation ''commonName'' = ''CN''"
  "getDNAbbreviation ''organizationName'' = ''O''"
  "getDNAbbreviation ''organizationalUnitName'' = ''OU''"
  "getDNAbbreviation ''localityName'' = ''L''"
  "getDNAbbreviation ''stateOrProvinceName'' = ''ST''"
  "getDNAbbreviation ''countryName'' = ''C''"
  "getDNAbbreviation ''emailAddress'' = ''E''"
  by (simp_all add: getDNAbbreviation_def abbreviations_def js_or_def truthy_def)

lemma component_of_field:
  "(case js_or v None of None \<Rightarrow> None | Some s \<Rightarrow> Some (a @ ''='' @ s)) =
   map_option (\<lambda>s. a @ ''='' @ s) (present v)"
  by (simp add: js_or_def present_def split: option.splits)

lemma js_or_None_eq: "js_or v None = present v"
  by (simp add: js_or_def present_def)

lemma common_name_truthy:
  "\<exists>s. js_or (js_or a b) (Some ''Unknown'') = Some s \<and> s \<noteq> []"
  by (cases a; cases b) (auto simp: js_or_def truthy_def)

lemma join_Cons_prefix: "\<exists>t. join sep (x # xs) = x @ t"
  by (cases xs) auto

lemma dn_string_refines:
  "dn_string (formatDistinguishedName info) = canonical_dn_string info"
proof -
  obtain s where s: "js_or (js_or (name info) (commonName info)) (Some ''Unknown'') = Some s"
    using common_name_truthy by blast
  show ?thesis
    unfolding formatDistinguishedName_def canonical_dn_string_def Let_def
    by (simp add: s List.map_filter_def dn_component_def getDNAbbreviation_table js_or_None_eq
        split: option.splits)
qed

lemma dn_string_jane_doe:
  "dn_string (formatDistinguishedName jane_doe) = ''CN=Jane Doe, O=Acme, C=US''"
  by (simp add: formatDistinguishedName_def jane_doe_def js_or_def truthy_def dn_component_def
      getDNAbbreviation_table)

text \<open>
  C8. The string that \<open>formatDistinguishedName\<close> builds is the canonical string: the
  present fields as \<open>ABBREV=value\<close> in the order CN, O, OU, L, ST, C, E, joined by a comma
  and a blank. For the input with common name Jane Doe, organization Acme and country US
  it is exactly \<open>CN=Jane Doe, O=Acme, C=US\<close>.
\<close>

theorem formatDistinguishedName_canonical:
  "dn_string (formatDistinguishedName info) = canonical_dn_string info \<and>
   dn_string (formatDistinguishedName jane_doe) = ''CN=Jane Doe, O=Acme, C=US''"
  using dn_string_refines dn_string_jane_doe by simp

text \<open>
  C10. For every input record the distinguished name has a common name that is not null
  and not empty; it is \<open>Unknown\<close> when the input has neither a name nor a common name; and
  the canonical string begins with \<open>CN=\<close>.
\<close>

theorem commonName_present:
  "\<exists>s. map_of (dn_entries (formatDistinguishedName info)) ''commonName'' = Some (Some s) \<and>
       s \<noteq> [] \<and>
       (\<not> truthy (name info) \<and> \<not> truthy (commonName info) \<longrightarrow> s = ''Unknown'') \<and>
       take 3 (dn_string (formatDistinguishedName info)) = ''CN=''"
proof -
  obtain s where s: "js_or (js_or (name info) (commonName info)) (Some ''Unknown'') = Some s"
      "s \<noteq> []"
    using common_name_truthy by blast
  let ?rest = "map dn_component (filter (\<lambda>(_, value). value \<noteq> None)
         [(''organizationName'', js_or (organization info) None),
          (''organizationalUnitName'', js_or (department info) None),
          (''localityName'', js_or (city info) None),
          (''stateOrProvinceName'', js_or (state info) None),
          (''countryName'', js_or (country info) None),
          (''emailAddress'', js_or (email info) None)])"
  have str: "dn_string (formatDistinguishedName info) = join '', '' ((''CN='' @ s) # ?rest)"
    by (simp add: formatDistinguishedName_def Let_def s dn_component_def getDNAbbreviation_table)
  obtain t where "join '', '' ((''CN='' @ s) # ?rest) = (''CN='' @ s) @ t"
    using join_Cons_prefix by blast
  with str have pre: "take 3 (dn_string (formatDistinguishedName info)) = ''CN=''"
    by simp
  have ent: "map_of (dn_entries (formatDistinguishedName info)) ''commonName'' = Some (Some s)"
    by (simp add: formatDistinguishedName_def Let_def s)
  have unk: "\<not> truthy (name info) \<and> \<not> truthy (commonName info) \<longrightarrow> s = ''Unknown''"
    using s(1) by (auto simp: js_or_def)
  from ent s(2) unk pre show ?thesis by blast
qed

theorem commonName_present_witness:
  "\<not> truthy (name nobody) \<and> \<not> truthy (commonName nobody) \<and>
   map_of (dn_entries (formatDistinguishedName nobody)) ''commonName'' = Some (Some ''Unknown'') \<and>
   dn_string (formatDistinguishedName nobody) = ''CN=Unknown''"
  using commonName_present [of nobody]
  by (simp add: nobody_def truthy_def formatDistinguishedName_def js_or_def dn_component_def
      getDNAbbreviation_table)

section \<open>CRC32: results\<close>

lemma crc_step_eq: "crc_step c = crc32_bit c"
  by (simp add: crc_step_def crc32_bit_def and_one_eq bit_0 mod_2_eq_odd xor.commute)

lemma crc_bits_funpow: "crc_bits k c = (crc32_bit ^^ k) c"
  by (induction k arbitrary: c) (simp_all add: crc_step_eq funpow_swap1)

lemma drop_bit_xor32: "drop_bit n ((x::32 word) XOR y) = drop_bit n x XOR drop_bit n y"
  by (rule bit_eqI) (simp add: bit_drop_bit_eq bit_xor_iff)

lemma crc32_bit_xor: "crc32_bit (x XOR y) = crc32_bit x XOR crc32_bit y"
  by (simp add: crc32_bit_def bit_xor_iff drop_bit_xor32 xor.assoc xor.commute xor.left_commute)

lemma funpow_crc32_bit_xor:
  "(crc32_bit ^^ k) (x XOR y) = (crc32_bit ^^ k) x XOR (crc32_bit ^^ k) y"
  by (induction k arbitrary: x y) (simp_all add: crc32_bit_xor)

lemma funpow_crc32_bit_high:
  "k \<le> 8 \<Longrightarrow> (crc32_bit ^^ k) (push_bit 8 h) = drop_bit k (push_bit 8 h)"
proof (induction k)
  case 0
  then show ?case by simp
next
  case (Suc k)
  then have ih: "(crc32_bit ^^ k) (push_bit 8 h) = drop_bit k (push_bit 8 h)" by simp
  have nb: "\<not> bit (drop_bit k (push_bit 8 h)) 0"
    using Suc.prems by (simp add: bit_drop_bit_eq bit_push_bit_iff)
  have "(crc32_bit ^^ Suc k) (push_bit 8 h) = crc32_bit (drop_bit k (push_bit 8 h))"
    by (simp add: ih)
  also have "\<dots> = drop_bit 1 (drop_bit k (push_bit 8 h))"
    using nb by (simp add: crc32_bit_def)
  also have "\<dots> = drop_bit (Suc k) (push_bit 8 h)"
    by (simp add: drop_bit_drop_bit)
  finally show ?case .
qed

lemma low_byte_take_bit: "(x::32 word) AND 0xFF = take_bit 8 x"
proof -
  have "(0xFF::32 word) = mask 8" by (simp add: mask_eq_exp_minus_1)
  then show ?thesis by (simp add: take_bit_eq_mask)
qed

lemma split_low_high: "(x::32 word) = take_bit 8 x XOR push_bit 8 (drop_bit 8 x)"
  by (rule bit_eqI)
    (auto simp add: bit_xor_iff bit_take_bit_iff bit_push_bit_iff bit_drop_bit_eq)

lemma table_lookup:
  "getCRCTable ! unat ((x::32 word) AND 0xFF) = (crc32_bit ^^ 8) (x AND 0xFF)"
proof -
  have "unat (x AND 0xFF) \<le> unat (0xFF :: 32 word)"
    by (rule word_and_le1 [THEN word_le_nat_alt [THEN iffD1]])
  then have lt: "unat (x AND 0xFF) < 256" by simp
  then show ?thesis
    by (simp add: getCRCTable_def crc_bits_funpow)
qed

lemma drop_bit_8_ucast: "drop_bit 8 (ucast (b::byte) :: 32 word) = 0"
  by (rule bit_eqI) (auto simp add: bit_drop_bit_eq bit_ucast_iff dest: bit_imp_le_length)

lemma crc_update_eq: "crc_update getCRCTable crc b = crc32_byte crc b"
proof -
  define y where "y = crc XOR ucast b"
  have "crc32_byte crc b = (crc32_bit ^^ 8) (take_bit 8 y XOR push_bit 8 (drop_bit 8 y))"
    unfolding crc32_byte_def y_def [symmetric] using split_low_high [of y] by simp
  also have "\<dots> = (crc32_bit ^^ 8) (take_bit 8 y) XOR drop_bit 8 (push_bit 8 (drop_bit 8 y))"
    by (simp only: funpow_crc32_bit_xor funpow_crc32_bit_high [OF order_refl])
  also have "drop_bit 8 (push_bit 8 (drop_bit 8 y)) = drop_bit 8 y"
    by (rule bit_eqI) (auto simp add: bit_drop_bit_eq bit_push_bit_iff dest: bit_imp_le_length)
  also have "drop_bit 8 y = drop_bit 8 crc"
    by (simp add: y_def drop_bit_xor32 drop_bit_8_ucast)
  finally have "crc32_byte crc b = (crc32_bit ^^ 8) (y AND 0xFF) XOR drop_bit 8 crc"
    by (simp only: low_byte_take_bit)
  moreover have "crc_update getCRCTable crc b = (crc32_bit ^^ 8) (y AND 0xFF) XOR drop_bit 8 crc"
    unfolding crc_update_def y_def [symmetric] by (simp only: table_lookup)
  ultimately show ?thesis by simp
qed

lemma calculateCRC32_refines: "calculateCRC32 data = crc32_standard data"
proof -
  have "foldl (crc_update getCRCTable) c data = foldl crc32_byte c data" for c
    by (induction data arbitrary: c) (simp_all add: crc_update_eq)
  then show ?thesis
    by (simp add: calculateCRC32_def crc32_standard_def)
qed

lemma funpow_8: "(f ^^ 8) x = f (f (f (f (f (f (f (f x)))))))"
  by (simp add: eval_nat_numeral)

lemma crc32_standard_check: "crc32_standard (ascii ''123456789'') = 0xCBF43926"
  by (simp add: crc32_standard_def crc32_byte_def funpow_8 ascii_def crc32_bit_def)

text \<open>
  C6. \<open>calculateCRC32\<close>, driven by the table, computes the standard CRC32 of PNG
  (polynomial \<open>0xEDB88320\<close>, initial and final XOR \<open>0xFFFFFFFF\<close>) on every input, and on
  the nine ASCII bytes of \<open>123456789\<close> it returns \<open>0xCBF43926\<close>.
\<close>

theorem calculateCRC32_standard:
  "calculateCRC32 data = crc32_standard data \<and>
   calculateCRC32 (ascii ''123456789'') = 0xCBF43926"
  using calculateCRC32_refines [of data] calculateCRC32_refines [of "ascii ''123456789''"]
    crc32_standard_check by simp

section \<open>Bytes and 32-bit values: results\<close>

lemma length_ascii [simp]: "length (ascii s) = length s"
  by (simp add: ascii_def)

lemma bit_shifted_byte:
  "k + 8 \<le> 32 \<Longrightarrow> bit (shifted_byte w k) n \<longleftrightarrow> n < 8 \<and> bit w (k + n)"
proof -
  assume k: "k + 8 \<le> 32"
  have m: "(0xFF::32 word) = mask 8" by (simp add: mask_eq_exp_minus_1)
  show ?thesis
    unfolding shifted_byte_def m
    using k by (auto simp add: bit_word_ucast_iff bit_and_iff bit_mask_iff bit_signed_drop_bit_iff)
qed

lemma word_of_shifted_bytes:
  "push_bit 24 (ucast (shifted_byte w 24)) OR push_bit 16 (ucast (shifted_byte w 16)) OR
   push_bit 8 (ucast (shifted_byte w 8)) OR ucast (shifted_byte w 0) = (w :: 32 word)"
proof (rule bit_eqI)
  fix n
  assume "possible_bit TYPE(32 word) n"
  then have n: "n < 32" by (simp add: possible_bit_word)
  consider "n < 8" | "8 \<le> n" "n < 16" | "16 \<le> n" "n < 24" | "24 \<le> n" "n < 32"
    using n by linarith
  then show "bit (push_bit 24 (ucast (shifted_byte w 24)) OR
                  push_bit 16 (ucast (shifted_byte w 16)) OR
                  push_bit 8 (ucast (shifted_byte w 8)) OR ucast (shifted_byte w 0) :: 32 word) n
             = bit w n"
    by cases (auto simp add: bit_or_iff bit_push_bit_iff bit_word_ucast_iff bit_shifted_byte)
qed

lemma int32_be_shifted_bytes:
  "int32_be (shifted_byte w 24) (shifted_byte w 16) (shifted_byte w 8) (shifted_byte w 0) = sint w"
  by (simp add: int32_be_def word_of_shifted_bytes)

lemma sint_of_nat_32: "n < 2 ^ 31 \<Longrightarrow> sint (of_nat n :: 32 word) = int n"
  by (simp add: signed_of_nat signed_take_bit_int_eq_self)

lemma word16_of_shifted_bytes:
  assumes "n < 2 ^ 16"
  shows "push_bit 8 (ucast (shifted_byte (of_nat n) 8)) OR ucast (shifted_byte (of_nat n) 0)
           = (of_nat n :: 32 word)"
proof (rule bit_eqI)
  fix k
  assume "possible_bit TYPE(32 word) k"
  have hi: "\<not> bit (of_nat n :: 32 word) j" if "16 \<le> j" for j
  proof -
    have "n < 2 ^ j" using assms that
      by (meson less_le_trans one_le_numeral power_increasing)
    then have "\<not> bit n j" by (simp add: bit_iff_odd)
    then show ?thesis by (simp only: bit_of_nat_iff) simp
  qed
  consider "k < 8" | "8 \<le> k" "k < 16" | "16 \<le> k"
    by linarith
  then show "bit (push_bit 8 (ucast (shifted_byte (of_nat n) 8)) OR
                  ucast (shifted_byte (of_nat n) 0) :: 32 word) k
             = bit (of_nat n :: 32 word) k"
    using hi by cases (auto simp add: bit_or_iff bit_push_bit_iff bit_word_ucast_iff bit_shifted_byte)
qed

lemma int16_be_shifted_bytes:
  "n < 2 ^ 16 \<Longrightarrow> int16_be (shifted_byte (of_nat n) 8) (shifted_byte (of_nat n) 0) = int n"
  by (simp add: int16_be_def word16_of_shifted_bytes sint_of_nat_32)

lemma replicate_split_12:
  "replicate (n + 12) (x::'a) = [x, x, x, x] @ replicate 8 x @ replicate n x"
proof -
  have "replicate (n + 12) x = replicate (4 + (8 + n)) x" by (simp add: add.commute)
  also have "\<dots> = replicate 4 x @ replicate 8 x @ replicate n x"
    by (simp only: replicate_add)
  finally show ?thesis by (simp add: eval_nat_numeral)
qed

lemma slice_nonneg:
  "0 \<le> s \<Longrightarrow> 0 \<le> e \<Longrightarrow> slice bs s e = take (nat e - nat s) (drop (nat s) bs)"
  by (auto simp add: slice_def Let_def min_def nat_diff_distrib')

section \<open>JPEG embedding and extraction: results\<close>

lemma createAPP15Segment_layout:
  "createAPP15Segment certBytes (length certBytes + 10) =
     [0xFF, MARKER_APP15, shifted_byte (of_nat (length certBytes + 10)) 8,
      shifted_byte (of_nat (length certBytes + 10)) 0] @ ascii SIGNATURE @ certBytes"
proof -
  have r: "replicate (length certBytes + 10 + 2) (0::byte) =
             [0, 0, 0, 0] @ replicate 8 0 @ replicate (length certBytes) 0"
    using replicate_split_12 [of "length certBytes" "0::byte"] by (simp add: add.commute)
  show ?thesis
    unfolding createAPP15Segment_def Let_def r
    by (simp add: set_bytes_def SIGNATURE_def)
qed

lemma insertSegment_layout:
  "2 \<le> length b \<Longrightarrow> insertSegment b seg = take 2 b @ seg @ drop 2 b"
proof -
  assume b: "2 \<le> length b"
  have s1: "slice b 0 2 = take 2 b" by (simp add: slice_nonneg)
  have s2: "slice b 2 (int (length b)) = drop 2 b" by (simp add: slice_nonneg)
  show ?thesis
    unfolding insertSegment_def Let_def s1 s2
    using b by (simp add: set_bytes_def numeral_2_eq_2)
qed

lemma valid_jpeg_take_2: "isValidJPEG b \<Longrightarrow> take 2 b = [0xFF, 0xD8]"
  by (cases b; cases "tl b") (auto simp add: isValidJPEG_def byte_at_def numeral_2_eq_2)

lemma jpeg_embed_layout:
  assumes valid: "isValidJPEG b"
    and fits: "length (serialize p) + length SIGNATURE + 2 \<le> 65535"
  shows "jpeg_embedCertification serialize b p =
           Inr ([0xFF, 0xD8, 0xFF, MARKER_APP15,
                 shifted_byte (of_nat (length (serialize p) + 10)) 8,
                 shifted_byte (of_nat (length (serialize p) + 10)) 0]
                @ ascii SIGNATURE @ serialize p @ drop 2 b)"
proof -
  have len: "2 \<le> length b" using valid by (simp add: isValidJPEG_def)
  have n: "length (serialize p) + length SIGNATURE + 2 = length (serialize p) + 10"
    by (simp add: SIGNATURE_def)
  have small: "\<not> length (serialize p) + 10 > 65535"
    using fits by (simp add: SIGNATURE_def)
  show ?thesis
    unfolding jpeg_embedCertification_def Let_def n
    using valid small len
    by (simp add: createAPP15Segment_layout insertSegment_layout valid_jpeg_take_2)
qed

lemma jpeg_extract_layout:
  assumes n: "length cb + 10 < 2 ^ 16"
  shows "jpeg_extractCertification parse
           ([0xFF, 0xD8, 0xFF, MARKER_APP15,
             shifted_byte (of_nat (length cb + 10)) 8, shifted_byte (of_nat (length cb + 10)) 0]
            @ ascii SIGNATURE @ cb @ rest) = parse cb"
proof -
  let ?hi = "shifted_byte (of_nat (length cb + 10)) 8"
  let ?lo = "shifted_byte (of_nat (length cb + 10)) 0"
  let ?e = "[0xFF, 0xD8, 0xFF, MARKER_APP15, ?hi, ?lo] @ ascii SIGNATURE @ cb @ rest"
  have valid: "isValidJPEG ?e" by (simp add: isValidJPEG_def byte_at_def)
  have len: "length ?e = 14 + length cb + length rest" by (simp add: SIGNATURE_def)
  have b2: "byte_at ?e 2 = 0xFF" "byte_at ?e (2 + 1) = MARKER_APP15"
    "byte_at ?e (2 + 2) = ?hi" "byte_at ?e (2 + 3) = ?lo"
    by (simp_all add: byte_at_def eval_nat_numeral)
  have seglen: "int16_be ?hi ?lo = int (length cb + 10)"
    using n by (rule int16_be_shifted_bytes)
  have sig: "slice ?e (int 2 + 4) (int 2 + 4 + int (length SIGNATURE)) = ascii SIGNATURE"
    by (simp add: slice_nonneg SIGNATURE_def eval_nat_numeral)
  have data: "slice ?e (int 2 + 4 + int (length SIGNATURE))
     (int 2 + 4 + int (length SIGNATURE) + (int (length cb + 10) - int (length SIGNATURE) - 2)) = cb"
    by (simp add: slice_nonneg SIGNATURE_def eval_nat_numeral nat_add_distrib)
  have "jpeg_extract_loop parse ?e 2 = parse cb"
    apply (subst jpeg_extract_loop.simps)
    apply (simp only: b2 seglen sig data Let_def len)
    apply simp
    done
  with valid show ?thesis by (simp add: jpeg_extractCertification_def)
qed

text \<open>
  C2. For every buffer that is a valid JPEG and every payload whose segment fits the
  ceiling of 65535 and that JSON serializes and parses back to itself, embedding succeeds,
  extracting from the result returns the payload, and the result is a valid JPEG.
\<close>

theorem jpeg_roundtrip:
  assumes valid: "isValidJPEG b"
    and fits: "length (serialize p) + length SIGNATURE + 2 \<le> 65535"
    and json: "parse (serialize p) = Some p"
  shows "\<exists>e. jpeg_embedCertification serialize b p = Inr e \<and>
             jpeg_extractCertification parse e = Some p \<and> isValidJPEG e"
proof -
  have n: "length (serialize p) + 10 < 2 ^ 16"
    using fits by (simp add: SIGNATURE_def)
  let ?e = "[0xFF, 0xD8, 0xFF, MARKER_APP15,
             shifted_byte (of_nat (length (serialize p) + 10)) 8,
             shifted_byte (of_nat (length (serialize p) + 10)) 0]
            @ ascii SIGNATURE @ serialize p @ drop 2 b"
  have "jpeg_embedCertification serialize b p = Inr ?e"
    using valid fits by (rule jpeg_embed_layout)
  moreover have "jpeg_extractCertification parse ?e = Some p"
    using jpeg_extract_layout [OF n, of parse "drop 2 b"] json by simp
  moreover have "isValidJPEG ?e"
    by (simp add: isValidJPEG_def byte_at_def)
  ultimately show ?thesis by blast
qed

theorem jpeg_roundtrip_witness:
  "isValidJPEG tiny_jpeg \<and>
   length (ascii ''{\"a\":1}'') + length SIGNATURE + 2 \<le> 65535 \<and>
   jpeg_embedCertification id tiny_jpeg (ascii ''{\"a\":1}'') =
     Inr ([0xFF, 0xD8, 0xFF, 0xEF, 0x00, 0x11] @ ascii ''IMGTRUST{\"a\":1}'' @ [0xFF, 0xD9]) \<and>
   jpeg_extractCertification Some
     ([0xFF, 0xD8, 0xFF, 0xEF, 0x00, 0x11] @ ascii ''IMGTRUST{\"a\":1}'' @ [0xFF, 0xD9]) =
     Some (ascii ''{\"a\":1}'')"
  using jpeg_roundtrip [of tiny_jpeg id "ascii ''{\"a\":1}''" Some]
  by (simp add: tiny_jpeg_def isValidJPEG_def byte_at_def SIGNATURE_def
      jpeg_embed_layout MARKER_APP15_def shifted_byte_def ascii_def)

section \<open>Metadata stripping: results\<close>

lemma strip_png_loop_stop:
  "\<not> int i < int (length bs) - 12 \<Longrightarrow> strip_png_loop bs i r = r"
  by (subst strip_png_loop.simps) simp

lemmas strip_png_eval =
  strip_png_loop.simps stripPNGMetadata_def byte_at_def ascii_def int32_be_def critical_chunk_def copy_range_def
  upt_conv_Cons chunk_length_at_def chunk_type_at_def PNG_SIGNATURE_def

text \<open>
  C4. \<open>stripPNGMetadata\<close> is a total function: its walk ends on every buffer and raises
  nothing. When the walk stands at a chunk whose length field is negative, or exceeds
  the bytes that remain after the chunk's length and type fields, it ends at that chunk:
  the result is what was accumulated, followed, when the chunk is critical, by the bytes
  from the chunk's start up to the declared end or the end of the buffer.
\<close>

theorem strip_png_forged_length_aborts:
  assumes visited: "int i < int (length bs) - 12"
    and forged: "chunk_length_at bs i < 0 \<or> int (length bs) - int (i + 8) < chunk_length_at bs i"
  shows "strip_png_loop bs i result =
           result @ (if critical_chunk (chunk_type_at bs i)
                     then copy_range bs i (min (int i + chunk_length_at bs i + 12) (int (length bs)))
                     else [])"
proof -
  let ?L = "chunk_length_at bs i"
  have next_stops: "\<not> int (nat (int i + ?L + 12)) < int (length bs) - 12" if "\<not> ?L < 0"
    using that forged by simp
  show ?thesis
    apply (subst strip_png_loop.simps)
    using visited next_stops
    apply (simp add: Let_def strip_png_loop_stop)
    done
qed

theorem strip_png_forged_length_aborts_witness:
  "int 33 < int (length forged_png) - 12 \<and>
   int (length forged_png) - int (33 + 8) < chunk_length_at forged_png 33 \<and>
   strip_png_loop forged_png 33 (take 33 forged_png) = forged_png \<and>
   stripPNGMetadata forged_png = forged_png \<and>
   int 8 < int (length negative_png) - 12 \<and>
   chunk_length_at negative_png 8 < 0 \<and>
   stripPNGMetadata negative_png = PNG_SIGNATURE"
  using strip_png_forged_length_aborts [of 33 forged_png "take 33 forged_png"]
    strip_png_forged_length_aborts [of 8 negative_png PNG_SIGNATURE]
  by (simp add: forged_png_def negative_png_def strip_png_eval)

text \<open>
  C7. Stripping is not idempotent. On the well-formed PNG \<open>one_pixel_png\<close> of 79 bytes
  the first pass returns the first 67 bytes (the walk stops before a chunk that ends with
  the buffer, so \<open>IEND\<close> is dropped) and the second pass returns the first 55 bytes (the
  empty \<open>IDAT\<close> chunk now ends the buffer and is dropped in turn).
\<close>

theorem stripPNGMetadata_not_idempotent:
  "stripPNGMetadata one_pixel_png = take 67 one_pixel_png \<and>
   stripPNGMetadata (stripPNGMetadata one_pixel_png) = take 55 one_pixel_png \<and>
   stripPNGMetadata (stripPNGMetadata one_pixel_png) \<noteq> stripPNGMetadata one_pixel_png"
  by (simp add: one_pixel_png_def strip_png_eval)

text \<open>
  The JPEG pass is not idempotent either: a retained segment that declares the length 1
  is copied as one byte, and the second pass finds no length field after the marker.
\<close>

lemma stripJPEGMetadata_not_idempotent:
  "stripJPEGMetadata short_segment_jpeg = [0xFF, 0xD8, 0xFF, 0xDB, 0x00] \<and>
   stripJPEGMetadata (stripJPEGMetadata short_segment_jpeg) = [0xFF, 0xD8, 0xFF, 0xDB]"
  by (simp add: short_segment_jpeg_def stripJPEGMetadata_def strip_jpeg_loop.simps byte_at_def
      keep_marker_def int16_be_def copy_range_def)

section \<open>PNG embedding and extraction: results\<close>

lemma findIEND_loop_range:
  "findIEND_loop b i = pos \<Longrightarrow> pos \<noteq> - 1 \<Longrightarrow> int i \<le> pos \<and> pos < int (length b) - 8"
proof (induction b i rule: findIEND_loop.induct)
  case (1 b i)
  show ?case
  proof (cases "int i < int (length b) - 8")
    case False
    with "1.prems" show ?thesis by (subst (asm) findIEND_loop.simps) simp
  next
    case True
    show ?thesis
    proof (cases "byte_at b (i + 4) = 0x49 \<and> byte_at b (i + 5) = 0x45 \<and>
                  byte_at b (i + 6) = 0x4E \<and> byte_at b (i + 7) = 0x44")
      case found: True
      with True "1.prems" show ?thesis by (subst (asm) findIEND_loop.simps) auto
    next
      case nf: False
      with True "1.prems" have "findIEND_loop b (i + 1) = pos"
        by (subst (asm) findIEND_loop.simps) auto
      with "1.IH" [OF True nf] "1.prems" show ?thesis by simp
    qed
  qed
qed

lemma replicate_split_chunk:
  "replicate (n + 12) (x::'a) = replicate 8 x @ replicate n x @ replicate 4 x"
proof -
  have "replicate (n + 12) x = replicate (8 + (n + 4)) x" by (simp add: add.commute)
  also have "\<dots> = replicate 8 x @ replicate n x @ replicate 4 x"
    by (simp only: replicate_add)
  finally show ?thesis .
qed

lemma take_prefix: "take (length xs) (xs @ ys) = xs"
  by simp

lemma update_tail_4:
  "length xs = k \<Longrightarrow>
   (xs @ [a, b, c, d])[k := w, Suc k := x, Suc (Suc k) := y, Suc (Suc (Suc k)) := z]
     = xs @ [w, x, y, z]"
  by (simp add: list_update_append)

lemma length_trust_chunk_head [simp]: "length (trust_chunk_head cb) = 8"
  by (simp add: trust_chunk_head_def)

lemma length_trust_chunk_crc [simp]: "length (trust_chunk_crc cb) = 4"
  by (simp add: trust_chunk_crc_def Let_def)

lemma createTrustChunk_layout: "createTrustChunk cb = trust_chunk_bytes cb"
proof -
  let ?n = "length cb"
  let ?hdr = "trust_chunk_head cb"
  have r: "replicate (?n + 12) (0::byte) = [0,0,0,0,0,0,0,0] @ replicate ?n 0 @ [0,0,0,0]"
    unfolding replicate_split_chunk by (simp add: eval_nat_numeral)
  have c1: "(replicate (?n + 12) (0::byte))
              [0 := shifted_byte (of_nat ?n) 24, 1 := shifted_byte (of_nat ?n) 16,
               2 := shifted_byte (of_nat ?n) 8, 3 := shifted_byte (of_nat ?n) 0,
               4 := 0x74, 5 := 0x52, 6 := 0x53, 7 := 0x54]
            = ?hdr @ replicate ?n 0 @ [0,0,0,0]"
    unfolding r trust_chunk_head_def by (simp add: eval_nat_numeral)
  have c2: "set_bytes (?hdr @ replicate ?n 0 @ [0,0,0,0]) cb 8 = ?hdr @ cb @ [0,0,0,0]"
    by (simp add: set_bytes_def)
  have "slice (?hdr @ cb @ [0,0,0,0]) 4 (8 + int ?n)
          = take (length ([0x74, 0x52, 0x53, 0x54] @ cb)) (([0x74, 0x52, 0x53, 0x54] @ cb) @ [0,0,0,0])"
    by (simp add: slice_nonneg nat_add_distrib trust_chunk_head_def eval_nat_numeral)
  then have sl: "slice (?hdr @ cb @ [0,0,0,0]) 4 (8 + int ?n) = [0x74, 0x52, 0x53, 0x54] @ cb"
    by (simp only: take_prefix)
  have idx: "8 + ?n = length (?hdr @ cb)" "9 + ?n = Suc (length (?hdr @ cb))"
    "10 + ?n = Suc (Suc (length (?hdr @ cb)))" "11 + ?n = Suc (Suc (Suc (length (?hdr @ cb))))"
    by simp_all
  have c3: "(?hdr @ cb @ [0,0,0,0])[8 + ?n := w, 9 + ?n := x, 10 + ?n := y, 11 + ?n := z]
              = ?hdr @ cb @ [w, x, y, z]" for w x y z
    unfolding idx using update_tail_4 [of "?hdr @ cb" "length (?hdr @ cb)" 0 0 0 0 w x y z]
    by simp
  show ?thesis
    unfolding createTrustChunk_def Let_def c1 c2 sl c3
    by (simp add: trust_chunk_bytes_def trust_chunk_crc_def Let_def)
qed

lemma insertChunk_layout:
  assumes "0 \<le> pos" "pos \<le> int (length b)"
  shows "insertChunk b chunk pos = take (nat pos) b @ chunk @ drop (nat pos) b"
proof -
  define k where "k = nat pos"
  have k: "k \<le> length b" "pos = int k" using assms by (simp_all add: k_def)
  have s1: "slice b 0 pos = take k b" using assms by (simp add: slice_nonneg k_def)
  have s2: "slice b pos (int (length b)) = drop k b"
    using assms by (simp add: slice_nonneg k_def)
  have lt: "length (take k b) = k" using k by simp
  have r1: "set_bytes (replicate (length b + length chunk) 0) (take k b) 0
              = take k b @ replicate (length b - k + length chunk) 0"
    using k by (simp add: set_bytes_def lt)
  have r2: "set_bytes (take k b @ replicate (length b - k + length chunk) 0) chunk k
              = take k b @ chunk @ replicate (length b - k) 0"
    using k by (simp add: set_bytes_def lt)
  have r3: "set_bytes (take k b @ chunk @ replicate (length b - k) 0) (drop k b) (k + length chunk)
              = take k b @ chunk @ drop k b"
    using k by (simp add: set_bytes_def lt)
  show ?thesis
    unfolding insertChunk_def Let_def s1 s2 r1
    by (simp only: k_def [symmetric] r1 r2 r3)
qed

lemma chunks_lead_to_le: "chunks_lead_to b pos off \<Longrightarrow> off \<le> pos"
proof (induction b pos off rule: chunks_lead_to.induct)
  case (1 b pos off)
  show ?case
  proof (cases "off = pos")
    case True then show ?thesis by simp
  next
    case False
    with "1.prems" show ?thesis
      by (subst (asm) chunks_lead_to.simps) (simp split: if_splits)
  qed
qed

lemma byte_at_int_nat [simp]: "byte_at_int bs (int k) = byte_at bs k"
  by (simp add: byte_at_int_def)

lemma byte_at_int_embedded:
  assumes "0 \<le> j" "j < pos" "pos \<le> int (length b)"
  shows "byte_at_int (take (nat pos) b @ ys) j = byte_at_int b j"
proof -
  obtain k where k: "j = int k" using assms(1) by (auto dest: zero_le_imp_eq_int)
  have "k < nat pos" "k < length b" using assms k by simp_all
  then show ?thesis
    unfolding k by (auto simp add: byte_at_def nth_append)
qed

lemma chunk_head_embedded:
  assumes "0 \<le> off" "off + 8 \<le> pos" "pos \<le> int (length b)"
  shows "chunk_length_int (take (nat pos) b @ ys) off = chunk_length_int b off"
    and "chunk_type_int (take (nat pos) b @ ys) off = chunk_type_int b off"
  using assms by (simp_all add: chunk_length_int_def chunk_type_int_def byte_at_int_embedded)

lemma byte_at_middle:
  "length pre = k \<Longrightarrow> i < length ys \<Longrightarrow> byte_at (pre @ ys @ zs) (k + i) = ys ! i"
  by (auto simp add: byte_at_def nth_append)

lemma ascii_CHUNK_TYPE: "ascii CHUNK_TYPE = [0x74, 0x52, 0x53, 0x54]"
  by (simp add: ascii_def CHUNK_TYPE_def)

lemma extract_at_trust_chunk:
  assumes k: "length pre = k" and rest: "rest \<noteq> []" and n: "length cb < 2 ^ 31"
  shows "png_extract_loop parse (pre @ trust_chunk_bytes cb @ rest) (int k) = Some (parse cb)"
proof -
  let ?h = "trust_chunk_head cb"
  let ?t = "cb @ trust_chunk_crc cb @ rest"
  let ?e = "pre @ trust_chunk_bytes cb @ rest"
  let ?w = "of_nat (length cb) :: 32 word"
  have e: "?e = pre @ ?h @ ?t" by (simp add: trust_chunk_bytes_def)
  have rd: "byte_at_int ?e (int k + int i) = ?h ! i" if "i < 8" for i
  proof -
    have "int k + int i = int (k + i)" by simp
    then show ?thesis
      unfolding e using byte_at_middle [OF k, of i ?h ?t] that
      by (simp only: byte_at_int_nat) simp
  qed
  have c0: "?h ! 0 = shifted_byte ?w 24" and c1: "?h ! 1 = shifted_byte ?w 16"
    and c2: "?h ! 2 = shifted_byte ?w 8" and c3: "?h ! 3 = shifted_byte ?w 0"
    and c4: "?h ! 4 = 0x74" and c5: "?h ! 5 = 0x52" and c6: "?h ! 6 = 0x53"
    and c7: "?h ! 7 = 0x54"
    by (simp_all add: trust_chunk_head_def eval_nat_numeral)
  have b0: "byte_at_int ?e (int k) = shifted_byte ?w 24"
    using rd [of 0] c0 by simp
  have b1: "byte_at_int ?e (int k + 1) = shifted_byte ?w 16"
    using rd [of 1] c1 by simp
  have b2: "byte_at_int ?e (int k + 2) = shifted_byte ?w 8"
    using rd [of 2] c2 by simp
  have b3: "byte_at_int ?e (int k + 3) = shifted_byte ?w 0"
    using rd [of 3] c3 by simp
  have b4: "byte_at_int ?e (int k + 4) = 0x74" using rd [of 4] c4 by simp
  have b5: "byte_at_int ?e (int k + 5) = 0x52" using rd [of 5] c5 by simp
  have b6: "byte_at_int ?e (int k + 6) = 0x53" using rd [of 6] c6 by simp
  have b7: "byte_at_int ?e (int k + 7) = 0x54" using rd [of 7] c7 by simp
  have len: "chunk_length_int ?e (int k) = int (length cb)"
    unfolding chunk_length_int_def b0 b1 b2 b3
    by (simp only: int32_be_shifted_bytes sint_of_nat_32 [OF n])
  have ty: "chunk_type_int ?e (int k) = ascii CHUNK_TYPE"
    unfolding chunk_type_int_def ascii_CHUNK_TYPE b4 b5 b6 b7 ..
  have "slice ?e (int k + 8) (int k + 8 + int (length cb))
          = take (length cb) (drop (k + 8) ?e)"
    by (simp add: slice_nonneg nat_add_distrib)
  also have "drop (k + 8) ?e = ?t"
    unfolding e using k by simp
  finally have data: "slice ?e (int k + 8) (int k + 8 + int (length cb)) = cb"
    by simp
  have cond: "int k < int (length ?e) - 12"
    unfolding e using k rest by (cases rest) simp_all
  show ?thesis
    apply (subst png_extract_loop.simps)
    apply (simp only: cond len ty data Let_def if_True)
    apply simp
    done
qed

lemma extract_walk:
  assumes "chunks_lead_to b pos off" "0 \<le> off" "pos \<le> int (length b)"
    and "drop (nat pos) b \<noteq> []" "length cb < 2 ^ 31"
  shows "png_extract_loop parse (take (nat pos) b @ trust_chunk_bytes cb @ drop (nat pos) b) off
           = Some (parse cb)"
  using assms
proof (induction b pos off rule: chunks_lead_to.induct)
  case (1 b pos off)
  let ?e = "take (nat pos) b @ trust_chunk_bytes cb @ drop (nat pos) b"
  show ?case
  proof (cases "off = pos")
    case True
    have "length (take (nat pos) b) = nat pos" using "1.prems" by simp
    from extract_at_trust_chunk [OF this "1.prems"(4,5), of parse]
    show ?thesis using True "1.prems"(2) by simp
  next
    case False
    let ?L = "chunk_length_int b off"
    from "1.prems"(1) False have "off < pos \<and> 0 \<le> ?L \<and>
      chunk_type_int b off \<noteq> ascii CHUNK_TYPE \<and>
      chunks_lead_to b pos (off + ?L + 12)"
      by (subst (asm) chunks_lead_to.simps) (simp split: if_splits)
    then have step: "off < pos" "0 \<le> ?L"
      "chunk_type_int b off \<noteq> ascii CHUNK_TYPE"
      "chunks_lead_to b pos (off + ?L + 12)"
      by simp_all
    have "off + ?L + 12 \<le> pos" using step(4) by (rule chunks_lead_to_le)
    with step(2) have room: "off + 8 \<le> pos" by simp
    have hd: "chunk_length_int ?e off = ?L" "chunk_type_int ?e off = chunk_type_int b off"
      using chunk_head_embedded [OF "1.prems"(2) room "1.prems"(3)] by simp_all
    have cond: "off < int (length ?e) - 12"
      using step(1) "1.prems"(3) by (simp add: trust_chunk_bytes_def)
    have "0 \<le> off + ?L + 12" using "1.prems"(2) step(2) by simp
    with "1.IH" [OF False _ step(4)] step "1.prems"
    have ih: "png_extract_loop parse ?e (off + ?L + 12) = Some (parse cb)"
      by simp
    show ?thesis
      apply (subst png_extract_loop.simps)
      apply (simp only: cond hd Let_def if_True)
      using step(3) ih apply simp
      done
  qed
qed


lemma png_embed_layout:
  assumes valid: "isValidPNG b"
    and iend: "findIENDChunk b \<noteq> - 1"
    and size: "length (serialize p) \<le> 2147483647"
  shows "png_embedCertification serialize b p =
           Inr (take (nat (findIENDChunk b)) b @ trust_chunk_bytes (serialize p) @
                drop (nat (findIENDChunk b)) b)"
proof -
  from findIEND_loop_range [of b 8 "findIENDChunk b"] iend
  have "8 \<le> findIENDChunk b" "findIENDChunk b < int (length b) - 8"
    by (simp_all add: findIENDChunk_def)
  then have "0 \<le> findIENDChunk b" "findIENDChunk b \<le> int (length b)" by simp_all
  then show ?thesis
    using valid iend size
    by (simp add: png_embedCertification_def Let_def createTrustChunk_layout insertChunk_layout)
qed

lemma valid_png_embedded:
  assumes "isValidPNG b" "8 \<le> k"
  shows "isValidPNG (take k b @ ys)"
proof -
  have len: "8 \<le> length b" using assms(1) by (simp add: isValidPNG_def split: if_splits)
  have "byte_at (take k b @ ys) i = byte_at b i" if "i < 8" for i
    using that len assms(2) by (auto simp add: byte_at_def nth_append)
  with assms(1) len assms(2) show ?thesis
    by (simp add: isValidPNG_def list_all_iff)
qed

lemma valid_one_pixel_png: "isValidPNG one_pixel_png"
  by (simp add: isValidPNG_def one_pixel_png_def PNG_SIGNATURE_def byte_at_def upt_conv_Cons)

lemma find_iend_one_pixel_png: "findIENDChunk one_pixel_png = 67"
  by (simp add: findIENDChunk_def findIEND_loop.simps one_pixel_png_def PNG_SIGNATURE_def byte_at_def)

lemma chunks_one_pixel_png: "chunks_lead_to one_pixel_png 67 8"
  by (simp add: chunks_lead_to.simps one_pixel_png_def PNG_SIGNATURE_def chunk_length_int_def
     chunk_type_int_def byte_at_int_def byte_at_def int32_be_def ascii_def CHUNK_TYPE_def)

text \<open>
  C3, as amended. For every buffer that is a valid PNG in which \<open>findIENDChunk\<close> finds
  an \<open>IEND\<close> tag and whose chunks, walked from offset 8, lead to the offset found
  without a \<open>tRST\<close> chunk on the way, and for every payload of at most 2147483647
  serialized bytes that JSON serializes and parses back to itself, embedding succeeds,
  extracting from the result returns the payload, and the result is a valid PNG.
\<close>

theorem png_roundtrip:
  assumes valid: "isValidPNG b"
    and iend: "findIENDChunk b \<noteq> - 1"
    and walk: "chunks_lead_to b (findIENDChunk b) 8"
    and size: "length (serialize p) \<le> 2147483647"
    and json: "parse (serialize p) = Some p"
  shows "\<exists>e. png_embedCertification serialize b p = Inr e \<and>
             png_extractCertification parse e = Some (Some p) \<and> isValidPNG e"
proof -
  let ?pos = "findIENDChunk b"
  let ?e = "take (nat ?pos) b @ trust_chunk_bytes (serialize p) @ drop (nat ?pos) b"
  from findIEND_loop_range [of b 8 ?pos] iend
  have range: "8 \<le> ?pos" "?pos < int (length b) - 8"
    by (simp_all add: findIENDChunk_def)
  have emb: "png_embedCertification serialize b p = Inr ?e"
    using valid iend size by (rule png_embed_layout)
  have ve: "isValidPNG ?e"
    using valid range(1) by (intro valid_png_embedded) simp_all
  have rest: "drop (nat ?pos) b \<noteq> []" using range by simp
  have n: "length (serialize p) < 2 ^ 31" using size by simp
  have "png_extract_loop parse ?e 8 = Some (parse (serialize p))"
    using extract_walk [OF walk _ _ rest n, of parse] range by simp
  with ve json have "png_extractCertification parse ?e = Some (Some p)"
    by (simp add: png_extractCertification_def)
  with emb ve show ?thesis by blast
qed

lemma trust_chunk_bytes_braces:
  "trust_chunk_bytes (ascii ''{}'') =
     [0x00, 0x00, 0x00, 0x02, 0x74, 0x52, 0x53, 0x54, 0x7B, 0x7D, 0x33, 0xD0, 0xF9, 0x43]"
  by (simp add: trust_chunk_bytes_def trust_chunk_head_def trust_chunk_crc_def Let_def ascii_def
      shifted_byte_def calculateCRC32_refines crc32_standard_def crc32_byte_def funpow_8
      crc32_bit_def)

theorem png_roundtrip_witness:
  "isValidPNG one_pixel_png \<and> findIENDChunk one_pixel_png = 67 \<and>
   chunks_lead_to one_pixel_png (findIENDChunk one_pixel_png) 8 \<and>
   png_embedCertification id one_pixel_png (ascii ''{}'') =
     Inr (take 67 one_pixel_png @
          [0x00, 0x00, 0x00, 0x02, 0x74, 0x52, 0x53, 0x54, 0x7B, 0x7D, 0x33, 0xD0, 0xF9, 0x43] @
          drop 67 one_pixel_png) \<and>
   png_extractCertification Some
     (take 67 one_pixel_png @
      [0x00, 0x00, 0x00, 0x02, 0x74, 0x52, 0x53, 0x54, 0x7B, 0x7D, 0x33, 0xD0, 0xF9, 0x43] @
      drop 67 one_pixel_png) = Some (Some (ascii ''{}''))"
  using png_roundtrip [of one_pixel_png id "ascii ''{}''" Some]
    png_embed_layout [of one_pixel_png id "ascii ''{}''"]
    valid_one_pixel_png chunks_one_pixel_png
  by (simp add: find_iend_one_pixel_png trust_chunk_bytes_braces)

lemma valid_certified_png: "isValidPNG certified_png"
  by (simp add: isValidPNG_def certified_png_def PNG_SIGNATURE_def byte_at_def upt_conv_Cons)

lemma find_iend_certified_png: "findIENDChunk certified_png = 22"
  by (simp add: findIENDChunk_def findIEND_loop.simps certified_png_def PNG_SIGNATURE_def byte_at_def)

theorem png_roundtrip_counterexample:
  "isValidPNG PNG_SIGNATURE \<and>
   png_embedCertification id PNG_SIGNATURE (ascii ''{}'') =
     Inl (Error ''IEND chunk not found in PNG'') \<and>
   isValidPNG certified_png \<and>
   png_embedCertification id certified_png (ascii ''[]'') =
     Inr (take 22 certified_png @ trust_chunk_bytes (ascii ''[]'') @ drop 22 certified_png) \<and>
   png_extractCertification Some
     (take 22 certified_png @ trust_chunk_bytes (ascii ''[]'') @ drop 22 certified_png)
     = Some (Some (ascii ''{}'')) \<and>
   ascii ''{}'' \<noteq> ascii ''[]''"
  apply (intro conjI)
  subgoal by (simp add: isValidPNG_def PNG_SIGNATURE_def byte_at_def upt_conv_Cons)
  subgoal by (simp add: png_embedCertification_def isValidPNG_def PNG_SIGNATURE_def byte_at_def
        upt_conv_Cons findIENDChunk_def findIEND_loop.simps)
  subgoal by (rule valid_certified_png)
  subgoal using png_embed_layout [of certified_png id "ascii ''[]''"] valid_certified_png
    by (simp add: find_iend_certified_png)
  subgoal
    apply (simp add: png_extractCertification_def valid_png_embedded valid_certified_png)
    apply (subst png_extract_loop.simps)
    apply (simp add: certified_png_def PNG_SIGNATURE_def chunk_length_int_def chunk_type_int_def
        byte_at_int_def byte_at_def int32_be_def ascii_def CHUNK_TYPE_def slice_def)
    done
  subgoal by (simp add: ascii_def)
  done

section \<open>Size ceilings: results\<close>

lemma jpeg_embed_fails_iff:
  "isValidJPEG b \<Longrightarrow>
   isl (jpeg_embedCertification serialize b p) \<longleftrightarrow> length (serialize p) + 10 > 65535"
  by (simp add: jpeg_embedCertification_def Let_def SIGNATURE_def)

lemma png_embed_fails_iff:
  "isValidPNG b \<Longrightarrow> findIENDChunk b \<noteq> - 1 \<Longrightarrow>
   isl (png_embedCertification serialize b p) \<longleftrightarrow> length (serialize p) > 2147483647"
  by (simp add: png_embedCertification_def Let_def)

text \<open>
  C5. On a valid JPEG, embedding fails exactly when the serialized payload plus the 10
  bytes of overhead exceeds 65535, with the error of the size check. On a valid PNG with
  an \<open>IEND\<close> chunk, embedding fails exactly when the payload exceeds 2147483647 bytes, so
  the PNG embedder accepts every payload that is too large for JPEG and within that
  ceiling.
\<close>

theorem embed_size_ceilings:
  assumes jpeg: "isValidJPEG b"
    and png: "isValidPNG b'" "findIENDChunk b' \<noteq> - 1"
  shows "(isl (jpeg_embedCertification serialize b p) \<longleftrightarrow> length (serialize p) + 10 > 65535) \<and>
         (length (serialize p) + 10 > 65535 \<longrightarrow>
            jpeg_embedCertification serialize b p =
              Inl (Error ''Certification data too large for JPEG segment'')) \<and>
         (isl (png_embedCertification serialize b' p) \<longleftrightarrow> length (serialize p) > 2147483647) \<and>
         (length (serialize p) + 10 > 65535 \<and> length (serialize p) \<le> 2147483647 \<longrightarrow>
            isl (jpeg_embedCertification serialize b p) \<and>
            \<not> isl (png_embedCertification serialize b' p))"
  using assms
  by (simp add: jpeg_embed_fails_iff png_embed_fails_iff)
     (simp add: jpeg_embedCertification_def Let_def SIGNATURE_def)

theorem embed_size_ceilings_witness:
  "isValidJPEG tiny_jpeg \<and> isValidPNG one_pixel_png \<and> findIENDChunk one_pixel_png = 67 \<and>
   length (replicate 65526 (0x20::byte)) + 10 > 65535 \<and>
   jpeg_embedCertification (\<lambda>n. replicate n 0x20) tiny_jpeg 65526 =
     Inl (Error ''Certification data too large for JPEG segment'') \<and>
   \<not> isl (jpeg_embedCertification (\<lambda>n. replicate n 0x20) tiny_jpeg 65525) \<and>
   \<not> isl (png_embedCertification (\<lambda>n. replicate n 0x20) one_pixel_png 65526)"
  using embed_size_ceilings [of tiny_jpeg one_pixel_png "\<lambda>n. replicate n 0x20" 65526]
    embed_size_ceilings [of tiny_jpeg one_pixel_png "\<lambda>n. replicate n 0x20" 65525]
    valid_one_pixel_png find_iend_one_pixel_png
  by (simp add: tiny_jpeg_def isValidJPEG_def byte_at_def)

section \<open>Validity period: results\<close>

lemma trust_store_loop_no_flags:
  "expired (trust_store_loop certInfo store) = None \<and>
   notYetValid (trust_store_loop certInfo store) = None"
  by (induction store) (simp_all add: no_result_def Let_def)

lemma validate_flags:
  assumes na: "validTo (getCertificateInfo cert) = Some (Date na)"
    and nb: "validFrom (getCertificateInfo cert) = Some (Date nb)"
  shows "expired (validateAgainstTrustStore now1 now2 cert store) =
           (if now1 > na then Some True else None)"
    and "notYetValid (validateAgainstTrustStore now1 now2 cert store) =
           (if \<not> now1 > na \<and> now2 < nb then Some True else None)"
  using na nb
  by (simp_all add: validateAgainstTrustStore_def Let_def date_gt_def date_lt_def no_result_def
      trust_store_loop_no_flags)

text \<open>
  The source reads the clock once for each check. With a clock that does not run
  backwards the two flags are decided as with one read.
\<close>

lemma validity_period_flags_two_reads:
  assumes na: "validTo (getCertificateInfo cert) = Some (Date na)"
    and nb: "validFrom (getCertificateInfo cert) = Some (Date nb)"
    and order: "nb < na"
    and clock: "now1 \<le> now2"
  shows "(expired (validateAgainstTrustStore now1 now2 cert store) = Some True \<longleftrightarrow> now1 > na) \<and>
         (notYetValid (validateAgainstTrustStore now1 now2 cert store) = Some True \<longleftrightarrow> now2 < nb)"
  using validate_flags [OF na nb, of now1 now2 store] order clock by auto

text \<open>
  C9. For every certificate carrying both validity timestamps, with \<open>notBefore\<close> before
  \<open>notAfter\<close> as the data model requires, for every trust store and every current time:
  the certificate is flagged as expired iff the time is strictly after \<open>notAfter\<close>; it is
  flagged as not yet valid iff the time is strictly before \<open>notBefore\<close>; and for a time
  strictly between the two neither flag is raised.
\<close>

theorem validity_period_flags:
  assumes na: "validTo (getCertificateInfo cert) = Some (Date na)"
    and nb: "validFrom (getCertificateInfo cert) = Some (Date nb)"
    and order: "nb < na"
  shows "(expired (validateAgainstTrustStore now now cert store) = Some True \<longleftrightarrow> now > na) \<and>
         (notYetValid (validateAgainstTrustStore now now cert store) = Some True \<longleftrightarrow> now < nb) \<and>
         (nb < now \<and> now < na \<longrightarrow>
            expired (validateAgainstTrustStore now now cert store) = None \<and>
            notYetValid (validateAgainstTrustStore now now cert store) = None)"
  using validate_flags [OF na nb, of now now store] order by auto

theorem validity_period_flags_witness:
  "validTo (getCertificateInfo (window_cert 1000 2000)) = Some (Date 2000) \<and>
   validFrom (getCertificateInfo (window_cert 1000 2000)) = Some (Date 1000) \<and>
   (1000::int) < 2000 \<and>
   expired (validateAgainstTrustStore 2001 2001 (window_cert 1000 2000) []) = Some True \<and>
   notYetValid (validateAgainstTrustStore 2001 2001 (window_cert 1000 2000) []) = None \<and>
   notYetValid (validateAgainstTrustStore 999 999 (window_cert 1000 2000) []) = Some True \<and>
   expired (validateAgainstTrustStore 999 999 (window_cert 1000 2000) []) = None \<and>
   expired (validateAgainstTrustStore 1500 1500 (window_cert 1000 2000) []) = None \<and>
   notYetValid (validateAgainstTrustStore 1500 1500 (window_cert 1000 2000) []) = None"
  using validity_period_flags [of "window_cert 1000 2000" 2000 1000 2001 "[]"]
    validity_period_flags [of "window_cert 1000 2000" 2000 1000 999 "[]"]
    validity_period_flags [of "window_cert 1000 2000" 2000 1000 1500 "[]"]
    validate_flags [of "window_cert 1000 2000" 2000 1000]
  by (simp add: window_cert_def getCertificateInfo_def)

section \<open>Verification verdict: results\<close>

text \<open>
  Whenever certification data and an image are present and no trusted certificate matches
  the fingerprint, the result is the object of the early return.
\<close>

lemma verifyCertification_untrusted:
  assumes "certificationData st = Some cd" "uploadedImage st = Some img"
    and "find (fingerprint_matches (certFingerprint cd)) (trustedCertificates st) = None"
  shows "verificationResult (verifyCertification now reExtracted st) =
           Some (empty_result\<lparr>result_valid := Some False, trusted := Some False,
                   validPeriod := Some False, signatureValid := Some False,
                   imageHashValid := Some False,
                   details_error := Some ''Certificate not found in trust store''\<rparr>)"
  using assms by (simp add: verifyCertification_def)

text \<open>
  C1. In \<open>untrusted_state\<close> the fingerprint \<open>EF:01\<close> of the certification data matches no
  trusted certificate. The result that \<open>verifyCertification\<close> sets has \<open>trusted\<close> false,
  but neither \<open>overallStatus\<close> nor \<open>trustIssues\<close>, and \<open>signatureValid\<close> and
  \<open>imageHashValid\<close> are false although the signature is in place and the data extracted
  again from the image is the same: the function returns before the remaining checks.
\<close>

theorem verifyCertification_untrusted_verdict:
  "verificationResult (verifyCertification 1500 (Inr (Some untrusted_data)) untrusted_state) =
     Some \<lparr>result_valid = Some False, trusted = Some False, validPeriod = Some False,
           certificateValid = None, signatureValid = Some False, imageHashValid = Some False,
           overallStatus = None, details_error = Some ''Certificate not found in trust store'',
           trustIssues = None, result_error = None\<rparr>"
  by (simp add: verifyCertification_def untrusted_state_def untrusted_data_def window_cert_def
      fingerprint_matches_def empty_result_def)

end
